theory Spec2Isabelle
  imports Main "HOL-Library.AList" "HOL-Library.Sublist"
begin

section \<open>Python values seen by the schema converter\<close>

text \<open>
  The module \<^verbatim>\<open>AgentsAndFunctions/function_to_schema.py\<close> reflects over a Python
  object with \<^verbatim>\<open>inspect\<close>. Every reflective operation either returns a value or raises;
  an exception is a value of \<open>exn\<close> carrying the text that \<^verbatim>\<open>str(e)\<close> returns, and a
  computation that may raise has type \<open>exn + 'a\<close> with \<open>Inl\<close> for the raise.
\<close>

datatype exn =
    ValueError string
  | TypeError string
  | AttributeError string
  | OSError string

fun str_exn :: "exn \<Rightarrow> string" where
  "str_exn (ValueError m) = m"
| "str_exn (TypeError m) = m"
| "str_exn (AttributeError m) = m"
| "str_exn (OSError m) = m"

fun is_ValueError :: "exn \<Rightarrow> bool" where
  "is_ValueError (ValueError m) = True"
| "is_ValueError e = False"

text \<open>
  Class objects that can occur as an annotation. The seven keys of \<^verbatim>\<open>type_map\<close> and the
  four classes named in the \<^verbatim>\<open>issubclass\<close> tests are listed one by one; any other class
  is \<open>Py_class n sub\<close>, where \<open>n\<close> is its qualified name and \<open>sub\<close> says whether it
  derives from \<^verbatim>\<open>tuple\<close>, \<^verbatim>\<open>set\<close>, \<^verbatim>\<open>complex\<close> or \<^verbatim>\<open>datetime.datetime\<close>.
\<close>

datatype pytype =
    Py_str | Py_int | Py_float | Py_bool | Py_list | Py_dict | Py_NoneType
  | Py_tuple | Py_set | Py_complex | Py_datetime
  | Py_class string bool

text \<open>
  The value of \<^verbatim>\<open>param.annotation\<close> or \<^verbatim>\<open>signature.return_annotation\<close>:
  the marker \<^verbatim>\<open>inspect._empty\<close>, a class, a hashable object that is not a class
  (a string, \<^verbatim>\<open>None\<close>, a \<^verbatim>\<open>typing\<close> generic; it carries its \<^verbatim>\<open>str()\<close>), or an
  unhashable object such as the list display in \<^verbatim>\<open>def f(x: [int])\<close> (it carries the
  name of its type and its \<^verbatim>\<open>str()\<close>).
\<close>

datatype annotation =
    Ann_empty
  | Ann_type pytype
  | Ann_object string
  | Ann_unhashable string string

datatype kind =
    POSITIONAL_ONLY | POSITIONAL_OR_KEYWORD | VAR_POSITIONAL | KEYWORD_ONLY | VAR_KEYWORD

text \<open>
  \<^verbatim>\<open>inspect.Parameter\<close>; \<open>p_has_default\<close> is False exactly when \<^verbatim>\<open>param.default\<close> is
  \<^verbatim>\<open>inspect._empty\<close>.
\<close>

record param =
  p_name :: string
  p_annotation :: annotation
  p_has_default :: bool
  p_kind :: kind

record signature =
  parameters :: "param list"
  return_annotation :: annotation

text \<open>
  The object handed to the two functions, as the results of the operations the code
  performs on it: \<^verbatim>\<open>callable(func)\<close>, \<^verbatim>\<open>func.__name__\<close>, \<^verbatim>\<open>func.__doc__\<close> (None when
  there is no docstring), \<^verbatim>\<open>inspect.signature(func)\<close> and \<^verbatim>\<open>inspect.getsource(func)\<close>.
\<close>

record pyfunc =
  is_callable :: bool
  fn_name :: "exn + string"
  fn_doc :: "string option"
  fn_signature :: "exn + signature"
  fn_source :: "exn + string"

section \<open>Strings\<close>

text \<open>
  \<^verbatim>\<open>str.strip()\<close> on ASCII text, \<^verbatim>\<open>sep.join(xs)\<close> and the substring test
  \<^verbatim>\<open>sub in s\<close>.
\<close>

definition py_isspace :: "char \<Rightarrow> bool" where
  "py_isspace c =
     (c \<in> set [CHR '' '', CHR 0x09, CHR 0x0A, CHR 0x0B, CHR 0x0C, CHR 0x0D,
                CHR 0x1C, CHR 0x1D, CHR 0x1E, CHR 0x1F])"

definition strip :: "string \<Rightarrow> string" where
  "strip s = rev (dropWhile py_isspace (rev (dropWhile py_isspace s)))"

text \<open>A text between two apostrophes, as the f-strings of the source write it.\<close>

definition quoted :: "string \<Rightarrow> string" where
  "quoted s = CHR 0x27 # s @ [CHR 0x27]"

fun join :: "string \<Rightarrow> string list \<Rightarrow> string" where
  "join sep [] = []"
| "join sep [x] = x"
| "join sep (x # y # ys) = x @ sep @ join sep (y # ys)"

fun contains :: "string \<Rightarrow> string \<Rightarrow> bool" where
  "contains sub [] = (sub = [])"
| "contains sub (c # cs) = (prefix sub (c # cs) \<or> contains sub cs)"

section \<open>The type table\<close>

definition type_map :: "(pytype \<times> string) list" where
  "type_map =
     [(Py_str, ''string''), (Py_int, ''integer''), (Py_float, ''number''),
      (Py_bool, ''boolean''), (Py_list, ''array''), (Py_dict, ''object''),
      (Py_NoneType, ''null'')]"

fun str_pytype :: "pytype \<Rightarrow> string" where
  "str_pytype Py_str = ''<class 'str'>''"
| "str_pytype Py_int = ''<class 'int'>''"
| "str_pytype Py_float = ''<class 'float'>''"
| "str_pytype Py_bool = ''<class 'bool'>''"
| "str_pytype Py_list = ''<class 'list'>''"
| "str_pytype Py_dict = ''<class 'dict'>''"
| "str_pytype Py_NoneType = ''<class 'NoneType'>''"
| "str_pytype Py_tuple = ''<class 'tuple'>''"
| "str_pytype Py_set = ''<class 'set'>''"
| "str_pytype Py_complex = ''<class 'complex'>''"
| "str_pytype Py_datetime = ''<class 'datetime.datetime'>''"
| "str_pytype (Py_class n sub) = ''<class '' @ quoted n @ ''>''"

fun str_annotation :: "annotation \<Rightarrow> string" where
  "str_annotation Ann_empty = ''<class 'inspect._empty'>''"
| "str_annotation (Ann_type t) = str_pytype t"
| "str_annotation (Ann_object s) = s"
| "str_annotation (Ann_unhashable tn s) = s"

text \<open>
  Hashing the key comes first in every dictionary operation: an unhashable key raises
  \<^verbatim>\<open>TypeError\<close> from \<^verbatim>\<open>type_map.get(k, d)\<close> and from \<^verbatim>\<open>k not in type_map\<close> alike.
  \<open>hash_error a\<close> is what \<^verbatim>\<open>hash(a)\<close> raises, if anything. Classes are compared by
  identity, so only the seven listed classes are found.
\<close>

fun hash_error :: "annotation \<Rightarrow> exn option" where
  "hash_error (Ann_unhashable tn s) = Some (TypeError (''unhashable type: '' @ quoted tn))"
| "hash_error a = None"

definition hashable :: "annotation \<Rightarrow> bool" where
  "hashable a = (hash_error a = None)"

fun type_map_lookup :: "annotation \<Rightarrow> string option" where
  "type_map_lookup (Ann_type t) = map_of type_map t"
| "type_map_lookup a = None"

definition type_map_get :: "annotation \<Rightarrow> string \<Rightarrow> exn + string" where
  "type_map_get a d =
     (case hash_error a of
        Some e \<Rightarrow> Inl e
      | None \<Rightarrow> Inr (case type_map_lookup a of Some v \<Rightarrow> v | None \<Rightarrow> d))"

definition in_type_map :: "annotation \<Rightarrow> exn + bool" where
  "in_type_map a =
     (case hash_error a of
        Some e \<Rightarrow> Inl e
      | None \<Rightarrow> Inr (type_map_lookup a \<noteq> None))"

text \<open>\<^verbatim>\<open>isinstance(a, type)\<close>: \<^verbatim>\<open>inspect._empty\<close> is itself a class.\<close>

fun isinstance_type :: "annotation \<Rightarrow> bool" where
  "isinstance_type Ann_empty = True"
| "isinstance_type (Ann_type t) = True"
| "isinstance_type a = False"

text \<open>
  \<^verbatim>\<open>issubclass(a, (tuple, set, complex, datetime.datetime))\<close>. Both call sites reach it
  only after \<^verbatim>\<open>isinstance(a, type)\<close> held, so the values that are not classes never get here.
\<close>

fun subclass_of_rejected :: "pytype \<Rightarrow> bool" where
  "subclass_of_rejected Py_tuple = True"
| "subclass_of_rejected Py_set = True"
| "subclass_of_rejected Py_complex = True"
| "subclass_of_rejected Py_datetime = True"
| "subclass_of_rejected (Py_class n sub) = sub"
| "subclass_of_rejected t = False"

fun issubclass_rejected :: "annotation \<Rightarrow> bool" where
  "issubclass_rejected (Ann_type t) = subclass_of_rejected t"
| "issubclass_rejected a = False"

section \<open>function\_to\_schema\<close>

record parameters_schema =
  ps_type :: string
  properties :: "(string \<times> (string \<times> string) list) list"
  required :: "string list"

record function_schema =
  fs_name :: string
  description :: string
  fs_parameters :: parameters_schema

record schema =
  s_type :: string
  s_function :: function_schema

text \<open>
  Lines 29 to 37: the loop that fills the insertion-ordered dictionary \<^verbatim>\<open>parameters\<close>.
  \<open>AList.update\<close> is the assignment \<^verbatim>\<open>d[k] = v\<close>: an existing key keeps its place, a new one
  goes to the end. The \<^verbatim>\<open>except KeyError\<close> clause guards \<^verbatim>\<open>type_map.get\<close> with a default,
  which raises no \<^verbatim>\<open>KeyError\<close>; the \<^verbatim>\<open>TypeError\<close> of an unhashable key passes through it.
\<close>

fun build_parameters ::
  "param list \<Rightarrow> (string \<times> (string \<times> string) list) list
     \<Rightarrow> exn + (string \<times> (string \<times> string) list) list" where
  "build_parameters [] acc = Inr acc"
| "build_parameters (p # ps) acc =
     (case type_map_get (p_annotation p) ''string'' of
        Inl e \<Rightarrow> Inl e
      | Inr param_type \<Rightarrow>
          build_parameters ps (AList.update (p_name p) [(''type'', param_type)] acc))"

definition required_names :: "param list \<Rightarrow> string list" where
  "required_names ps = map p_name (filter (\<lambda>p. \<not> p_has_default p) ps)"

text \<open>Lines 22 to 27: only \<^verbatim>\<open>ValueError\<close> is caught, and the new message reads \<^verbatim>\<open>func.__name__\<close>.\<close>

definition get_signature :: "pyfunc \<Rightarrow> exn + signature" where
  "get_signature func =
     (case fn_signature func of
        Inr sg \<Rightarrow> Inr sg
      | Inl e \<Rightarrow>
          if is_ValueError e then
            (case fn_name func of
               Inl e' \<Rightarrow> Inl e'
             | Inr n \<Rightarrow>
                 Inl (ValueError (''Failed to get signature for function '' @ n @ '': '' @ str_exn e)))
          else Inl e)"

definition function_to_schema :: "pyfunc \<Rightarrow> exn + schema" where
  "function_to_schema func =
     (case get_signature func of
        Inl e \<Rightarrow> Inl e
      | Inr sg \<Rightarrow>
          (case build_parameters (parameters sg) [] of
             Inl e \<Rightarrow> Inl e
           | Inr props \<Rightarrow>
               (case fn_name func of
                  Inl e \<Rightarrow> Inl e
                | Inr n \<Rightarrow>
                    Inr \<lparr>s_type = ''function'',
                         s_function =
                           \<lparr>fs_name = n,
                            description = strip (case fn_doc func of None \<Rightarrow> [] | Some d \<Rightarrow> d),
                            fs_parameters =
                              \<lparr>ps_type = ''object'',
                               properties = props,
                               required = required_names (parameters sg)\<rparr>\<rparr>\<rparr>)))"

section \<open>is\_function\_schema\_compatible\<close>

text \<open>The three shapes of the return value: a bool, \<^verbatim>\<open>(bool, str)\<close> and \<^verbatim>\<open>(bool, dict)\<close>.\<close>

datatype result =
    Flag bool
  | Report bool string
  | Parsed bool schema

fun result_flag :: "result \<Rightarrow> bool" where
  "result_flag (Flag b) = b"
| "result_flag (Report b s) = b"
| "result_flag (Parsed b sc) = b"

definition missing_annotation_reason :: "string \<Rightarrow> string" where
  "missing_annotation_reason n = ''Parameter '' @ quoted n @ '' is missing a type annotation.''"

definition unrecognized_reason :: "string \<Rightarrow> annotation \<Rightarrow> string" where
  "unrecognized_reason n a =
     ''Parameter '' @ quoted n @ '' has an unrecognized type annotation: '' @ str_annotation a @ ''.''"

definition unsupported_reason :: "string \<Rightarrow> annotation \<Rightarrow> string" where
  "unsupported_reason n a =
     ''Parameter '' @ quoted n @ '' has an unsupported type: '' @ str_annotation a @ ''.''"

definition varargs_reason :: string where
  "varargs_reason = ''Function uses *args or **kwargs, which are not supported.''"

definition input_reason :: string where
  "input_reason = ''Function contains an input() call, which requires user interaction.''"

definition return_reason :: "annotation \<Rightarrow> string" where
  "return_reason a = ''Return type '' @ quoted (str_annotation a) @ '' is unsupported.''"

text \<open>Lines 104 to 110, for one parameter: the reasons it appends, none or one.\<close>

definition check_param :: "param \<Rightarrow> exn + string list" where
  "check_param p =
     (if p_annotation p = Ann_empty then Inr [missing_annotation_reason (p_name p)]
      else
        (case in_type_map (p_annotation p) of
           Inl e \<Rightarrow> Inl e
         | Inr found \<Rightarrow>
             if found then Inr []
             else if \<not> isinstance_type (p_annotation p) then
               Inr [unrecognized_reason (p_name p) (p_annotation p)]
             else if issubclass_rejected (p_annotation p) then
               Inr [unsupported_reason (p_name p) (p_annotation p)]
             else Inr []))"

text \<open>The loop of step 3, with the list \<^verbatim>\<open>disqualifiers\<close> passed along.\<close>

fun check_parameters :: "param list \<Rightarrow> string list \<Rightarrow> exn + string list" where
  "check_parameters [] ds = Inr ds"
| "check_parameters (p # ps) ds =
     (case check_param p of
        Inl e \<Rightarrow> Inl e
      | Inr rs \<Rightarrow> check_parameters ps (ds @ rs))"

definition uses_varargs :: "param list \<Rightarrow> bool" where
  "uses_varargs ps = list_ex (\<lambda>p. p_kind p = VAR_POSITIONAL \<or> p_kind p = VAR_KEYWORD) ps"

text \<open>Lines 122 to 126: the return annotation.\<close>

definition check_return :: "annotation \<Rightarrow> exn + string list" where
  "check_return a =
     (case in_type_map a of
        Inl e \<Rightarrow> Inl e
      | Inr found \<Rightarrow>
          if \<not> found \<and> a \<noteq> Ann_empty then
            (if isinstance_type a \<and> \<not> issubclass_rejected a then Inr []
             else Inr [return_reason a])
          else Inr [])"



text \<open>
  Steps 3 to 6 in the order of the source. \<^verbatim>\<open>inspect.getsource(func)\<close> on line 117 is
  outside every \<^verbatim>\<open>try\<close>, so what it raises leaves the function.
\<close>

definition disqualifiers :: "pyfunc \<Rightarrow> signature \<Rightarrow> exn + string list" where
  "disqualifiers func sg =
     (case check_parameters (parameters sg) [] of
        Inl e \<Rightarrow> Inl e
      | Inr d3 \<Rightarrow>
          (let d4 = (if uses_varargs (parameters sg) then d3 @ [varargs_reason] else d3) in
           case fn_source func of
             Inl e \<Rightarrow> Inl e
           | Inr source_code \<Rightarrow>
               (let d5 = (if contains ''input('' source_code then d4 @ [input_reason] else d4) in
                case check_return (return_annotation sg) of
                  Inl e \<Rightarrow> Inl e
                | Inr rs \<Rightarrow> Inr (d5 @ rs))))"

text \<open>Step 7, lines 129 to 143.\<close>

definition finish :: "pyfunc \<Rightarrow> string list \<Rightarrow> bool \<Rightarrow> bool \<Rightarrow> result" where
  "finish func ds and_parse verbose =
     (let is_compatible = (ds = []) in
      if is_compatible \<and> and_parse then
        (case function_to_schema func of
           Inr sc \<Rightarrow> Parsed True sc
         | Inl e \<Rightarrow>
             if verbose then
               Report False (''Function is structurally valid but failed to convert: '' @ str_exn e)
             else Flag False)
      else if verbose then Report is_compatible (join ''; '' ds)
      else Flag is_compatible)"

definition is_function_schema_compatible :: "pyfunc \<Rightarrow> bool \<Rightarrow> bool \<Rightarrow> exn + result" where
  "is_function_schema_compatible func and_parse verbose =
     (if \<not> is_callable func then
        Inr (if verbose then Report False ''Provided object is not a function.'' else Flag False)
      else
        (case fn_signature func of
           Inl e \<Rightarrow>
             if is_ValueError e then
               (if verbose then
                  (case fn_name func of
                     Inl e' \<Rightarrow> Inl e'
                   | Inr n \<Rightarrow> Inr (Report False (''Could not retrieve signature for '' @ n @ ''.'')))
                else Inr (Flag False))
             else Inl e
         | Inr sg \<Rightarrow>
             (case disqualifiers func sg of
                Inl e \<Rightarrow> Inl e
              | Inr ds \<Rightarrow> Inr (finish func ds and_parse verbose))))"

section \<open>The checker on an object store\<close>

text \<open>
  The one object \<^verbatim>\<open>is_function_schema_compatible\<close> mutates is the list \<^verbatim>\<open>disqualifiers\<close>. Here
  the same lines run on a store of list objects that outlives the call: \<^verbatim>\<open>disqualifiers = []\<close>
  on line 89 allocates a new list, every \<^verbatim>\<open>append\<close> updates it in place, and line 129 and
  line 141 read it back. Nothing is freed, so the store a call leaves behind holds the lists
  of all earlier calls.
\<close>

record store =
  heap :: "nat \<rightharpoonup> string list"
  next_ref :: nat

definition new_list :: "store \<Rightarrow> nat \<times> store" where
  "new_list st =
     (next_ref st, st\<lparr>heap := (heap st)(next_ref st \<mapsto> []), next_ref := Suc (next_ref st)\<rparr>)"

definition list_append :: "nat \<Rightarrow> string \<Rightarrow> store \<Rightarrow> store" where
  "list_append r x st =
     (case heap st r of
        None \<Rightarrow> st
      | Some xs \<Rightarrow> st\<lparr>heap := (heap st)(r \<mapsto> xs @ [x])\<rparr>)"

definition list_read :: "nat \<Rightarrow> store \<Rightarrow> string list" where
  "list_read r st = (case heap st r of None \<Rightarrow> [] | Some xs \<Rightarrow> xs)"

fun append_all :: "nat \<Rightarrow> string list \<Rightarrow> store \<Rightarrow> store" where
  "append_all r [] st = st"
| "append_all r (x # xs) st = append_all r xs (list_append r x st)"

fun check_parameters_in :: "param list \<Rightarrow> nat \<Rightarrow> store \<Rightarrow> exn option \<times> store" where
  "check_parameters_in [] r st = (None, st)"
| "check_parameters_in (p # ps) r st =
     (case check_param p of
        Inl e \<Rightarrow> (Some e, st)
      | Inr rs \<Rightarrow> check_parameters_in ps r (append_all r rs st))"

definition disqualifiers_in :: "pyfunc \<Rightarrow> signature \<Rightarrow> nat \<Rightarrow> store \<Rightarrow> exn option \<times> store" where
  "disqualifiers_in func sg r st =
     (case check_parameters_in (parameters sg) r st of
        (Some e, st1) \<Rightarrow> (Some e, st1)
      | (None, st1) \<Rightarrow>
          (let st2 = (if uses_varargs (parameters sg) then list_append r varargs_reason st1 else st1) in
           case fn_source func of
             Inl e \<Rightarrow> (Some e, st2)
           | Inr source_code \<Rightarrow>
               (let st3 = (if contains ''input('' source_code
                           then list_append r input_reason st2 else st2) in
                case check_return (return_annotation sg) of
                  Inl e \<Rightarrow> (Some e, st3)
                | Inr rs \<Rightarrow> (None, append_all r rs st3))))"

definition call_checker :: "pyfunc \<Rightarrow> bool \<Rightarrow> bool \<Rightarrow> store \<Rightarrow> (exn + result) \<times> store" where
  "call_checker func and_parse verbose st =
     (case new_list st of
        (r, st0) \<Rightarrow>
          if \<not> is_callable func then
            (Inr (if verbose then Report False ''Provided object is not a function.''
                  else Flag False), st0)
          else
            (case fn_signature func of
               Inl e \<Rightarrow>
                 (if is_ValueError e then
                    (if verbose then
                       (case fn_name func of
                          Inl e' \<Rightarrow> Inl e'
                        | Inr n \<Rightarrow>
                            Inr (Report False (''Could not retrieve signature for '' @ n @ ''.'')))
                     else Inr (Flag False))
                  else Inl e, st0)
             | Inr sg \<Rightarrow>
                 (case disqualifiers_in func sg r st0 of
                    (Some e, st1) \<Rightarrow> (Inl e, st1)
                  | (None, st1) \<Rightarrow>
                      (Inr (finish func (list_read r st1) and_parse verbose), st1))))"

section \<open>Example functions\<close>

text \<open>
  \<^verbatim>\<open>def add_numbers(a: float, b: float) -> float\<close> with the docstring of the spec's example.
\<close>

definition number_param :: "string \<Rightarrow> param" where
  "number_param n =
     \<lparr>p_name = n, p_annotation = Ann_type Py_float, p_has_default = False,
      p_kind = POSITIONAL_OR_KEYWORD\<rparr>"

definition add_numbers :: pyfunc where
  "add_numbers =
     \<lparr>is_callable = True,
      fn_name = Inr ''add_numbers'',
      fn_doc = Some ''Adds two numbers.'',
      fn_signature =
        Inr \<lparr>parameters = [number_param ''a'', number_param ''b''],
             return_annotation = Ann_type Py_float\<rparr>,
      fn_source = Inr ''def add_numbers(a: float, b: float) -> float: return a + b''\<rparr>"

text \<open>
  The same function compiled from a string by \<^verbatim>\<open>exec\<close>, as \<^verbatim>\<open>create_tools_from_analysis\<close>
  does before it calls the checker: there is no file to read the source from.
\<close>

definition exec_add_numbers :: pyfunc where
  "exec_add_numbers = add_numbers\<lparr>fn_source := Inl (OSError ''could not get source code'')\<rparr>"

text \<open>\<^verbatim>\<open>def first(xs: [int]): return xs[0]\<close>: the annotation is a list object.\<close>

definition list_annotated :: pyfunc where
  "list_annotated =
     \<lparr>is_callable = True,
      fn_name = Inr ''first'',
      fn_doc = None,
      fn_signature =
        Inr \<lparr>parameters =
               [\<lparr>p_name = ''xs'', p_annotation = Ann_unhashable ''list'' ''[<class 'int'>]'',
                 p_has_default = False, p_kind = POSITIONAL_OR_KEYWORD\<rparr>],
             return_annotation = Ann_empty\<rparr>,
      fn_source = Inr ''def first(xs: [int]): return xs[0]''\<rparr>"

text \<open>
  An instance of a class with \<^verbatim>\<open>__call__\<close> whose \<^verbatim>\<open>__wrapped__\<close> is \<^verbatim>\<open>add_numbers\<close>:
  \<^verbatim>\<open>inspect\<close> follows \<^verbatim>\<open>__wrapped__\<close> for the signature and the source, and the instance has
  no \<^verbatim>\<open>__name__\<close>.
\<close>

definition wrapper_object :: pyfunc where
  "wrapper_object =
     add_numbers\<lparr>fn_name :=
                   Inl (AttributeError
                     (quoted ''Wrapper'' @ '' object has no attribute '' @ quoted ''__name__'')),
                 fn_doc := None\<rparr>"

text \<open>\<^verbatim>\<open>def scale(point: tuple, factor: int = 2) -> list\<close>.\<close>

definition takes_tuple :: pyfunc where
  "takes_tuple =
     \<lparr>is_callable = True,
      fn_name = Inr ''scale'',
      fn_doc = None,
      fn_signature =
        Inr \<lparr>parameters =
               [\<lparr>p_name = ''point'', p_annotation = Ann_type Py_tuple, p_has_default = False,
                 p_kind = POSITIONAL_OR_KEYWORD\<rparr>,
                \<lparr>p_name = ''factor'', p_annotation = Ann_type Py_int, p_has_default = True,
                 p_kind = POSITIONAL_OR_KEYWORD\<rparr>],
             return_annotation = Ann_type Py_list\<rparr>,
      fn_source = Inr ''def scale(point: tuple, factor: int = 2) -> list: return [c * factor for c in point]''\<rparr>"

text \<open>\<^verbatim>\<open>def log(msg: str, *args, **kwargs) -> None\<close>.\<close>

definition takes_kwargs :: pyfunc where
  "takes_kwargs =
     \<lparr>is_callable = True,
      fn_name = Inr ''log'',
      fn_doc = None,
      fn_signature =
        Inr \<lparr>parameters =
               [\<lparr>p_name = ''msg'', p_annotation = Ann_type Py_str, p_has_default = False,
                 p_kind = POSITIONAL_OR_KEYWORD\<rparr>,
                \<lparr>p_name = ''args'', p_annotation = Ann_empty, p_has_default = False,
                 p_kind = VAR_POSITIONAL\<rparr>,
                \<lparr>p_name = ''kwargs'', p_annotation = Ann_empty, p_has_default = False,
                 p_kind = VAR_KEYWORD\<rparr>],
             return_annotation = Ann_object ''None''\<rparr>,
      fn_source = Inr ''def log(msg: str, *args, **kwargs) -> None: print(msg, args, kwargs)''\<rparr>"

section \<open>Facts about the loops\<close>

lemma update_fresh: "k \<notin> fst ` set al \<Longrightarrow> AList.update k v al = al @ [(k, v)]"
  by (induction al) auto

lemma type_map_get_hashable:
  "hashable a \<Longrightarrow> type_map_get a d = Inr (case type_map_lookup a of Some v \<Rightarrow> v | None \<Rightarrow> d)"
  by (simp add: hashable_def type_map_get_def)

lemma build_parameters_fresh:
  "distinct (map p_name ps) \<Longrightarrow> \<forall>p \<in> set ps. p_name p \<notin> fst ` set acc \<Longrightarrow>
   \<forall>p \<in> set ps. hashable (p_annotation p) \<Longrightarrow>
   build_parameters ps acc =
     Inr (acc @ map (\<lambda>p. (p_name p,
            [(''type'', case type_map_lookup (p_annotation p) of Some v \<Rightarrow> v | None \<Rightarrow> ''string'')])) ps)"
proof (induction ps arbitrary: acc)
  case Nil
  then show ?case by simp
next
  case (Cons p ps)
  let ?v = "[(''type'', case type_map_lookup (p_annotation p) of Some v \<Rightarrow> v | None \<Rightarrow> ''string'')]"
  have fresh: "p_name p \<notin> fst ` set acc" using Cons.prems(2) by simp
  have upd: "AList.update (p_name p) ?v acc = acc @ [(p_name p, ?v)]"
    using fresh by (rule update_fresh)
  have d: "distinct (map p_name ps)" using Cons.prems(1) by simp
  have f: "\<forall>q \<in> set ps. p_name q \<notin> fst ` set (acc @ [(p_name p, ?v)])"
    using Cons.prems(1,2) by (auto simp: image_iff)
  have h: "\<forall>q \<in> set ps. hashable (p_annotation q)" using Cons.prems(3) by simp
  have hp: "hashable (p_annotation p)" using Cons.prems(3) by simp
  show ?case
    using Cons.IH[OF d f h] by (simp add: type_map_get_hashable[OF hp] upd)
qed

lemma join_Nil_iff: "\<forall>x \<in> set xs. x \<noteq> [] \<Longrightarrow> join sep xs = [] \<longleftrightarrow> xs = []"
  by (induction sep xs rule: join.induct) auto

lemma check_parameters_acc:
  "check_parameters ps ds =
     (case check_parameters ps [] of Inl e \<Rightarrow> Inl e | Inr rs \<Rightarrow> Inr (ds @ rs))"
proof (induction ps arbitrary: ds)
  case Nil
  then show ?case by simp
next
  case (Cons p ps)
  show ?case
  proof (cases "check_param p")
    case (Inl e)
    then show ?thesis by simp
  next
    case (Inr rs)
    show ?thesis
      using Cons.IH[of "ds @ rs"] Cons.IH[of "rs"] Inr
      by (simp split: sum.splits)
  qed
qed

lemma check_parameters_Cons:
  "check_parameters (p # ps) [] =
     (case check_param p of
        Inl e \<Rightarrow> Inl e
      | Inr rs \<Rightarrow> (case check_parameters ps [] of Inl e \<Rightarrow> Inl e | Inr rs' \<Rightarrow> Inr (rs @ rs')))"
proof (cases "check_param p")
  case (Inl e)
  then show ?thesis by simp
next
  case (Inr rs)
  then show ?thesis using check_parameters_acc[of ps rs] by simp
qed



lemma check_parameters_mem:
  "check_parameters ps [] = Inr ds \<Longrightarrow> p \<in> set ps \<Longrightarrow> check_param p = Inr rs \<Longrightarrow> set rs \<subseteq> set ds"
proof (induction ps arbitrary: ds)
  case Nil
  then show ?case by simp
next
  case (Cons q qs)
  from Cons.prems(1) obtain rq rqs where
    q: "check_param q = Inr rq" and qs: "check_parameters qs [] = Inr rqs" and ds: "ds = rq @ rqs"
    by (auto simp: check_parameters_Cons simp del: check_parameters.simps split: sum.splits)
  show ?case
  proof (cases "p = q")
    case True
    then show ?thesis using q ds Cons.prems(3) by auto
  next
    case False
    then have "p \<in> set qs" using Cons.prems(2) by simp
    then have "set rs \<subseteq> set rqs" using Cons.IH[OF qs _ Cons.prems(3)] by simp
    then show ?thesis using ds by auto
  qed
qed

lemma check_parameters_origin:
  "check_parameters ps [] = Inr ds \<Longrightarrow> d \<in> set ds \<Longrightarrow>
   \<exists>p \<in> set ps. \<exists>rs. check_param p = Inr rs \<and> d \<in> set rs"
proof (induction ps arbitrary: ds)
  case Nil
  then show ?case by simp
next
  case (Cons q qs)
  from Cons.prems(1) obtain rq rqs where
    q: "check_param q = Inr rq" and qs: "check_parameters qs [] = Inr rqs" and ds: "ds = rq @ rqs"
    by (auto simp: check_parameters_Cons simp del: check_parameters.simps split: sum.splits)
  show ?case
  proof (cases "d \<in> set rq")
    case True
    then show ?thesis using q by auto
  next
    case False
    then have "d \<in> set rqs" using Cons.prems(2) ds by simp
    then show ?thesis using Cons.IH[OF qs] by auto
  qed
qed

lemma check_param_prefix: "check_param p = Inr rs \<Longrightarrow> r \<in> set rs \<Longrightarrow> prefix ''Parameter '' r"
  by (auto simp: check_param_def missing_annotation_reason_def unrecognized_reason_def
      unsupported_reason_def split: if_splits sum.splits)

lemma check_parameters_prefix:
  "check_parameters ps [] = Inr ds \<Longrightarrow> d \<in> set ds \<Longrightarrow> prefix ''Parameter '' d"
  using check_parameters_origin check_param_prefix by blast


lemma check_return_cases:
  "check_return a = Inr rs \<Longrightarrow> rs = [] \<or> rs = [return_reason a]"
  by (auto simp: check_return_def split: sum.splits if_splits)


lemma disqualifiers_InrD:
  "disqualifiers func sg = Inr ds \<Longrightarrow>
   \<exists>d3 src rs. check_parameters (parameters sg) [] = Inr d3 \<and> fn_source func = Inr src \<and>
     check_return (return_annotation sg) = Inr rs \<and>
     ds = d3 @ (if uses_varargs (parameters sg) then [varargs_reason] else [])
             @ (if contains ''input('' src then [input_reason] else []) @ rs"
  by (auto simp: disqualifiers_def Let_def split: sum.splits if_splits)


lemma disqualifiers_nonempty:
  assumes "disqualifiers func sg = Inr ds" "d \<in> set ds"
  shows "d \<noteq> []"
proof -
  from assms(1) obtain d3 src rs where
    d3: "check_parameters (parameters sg) [] = Inr d3" and
    rs: "check_return (return_annotation sg) = Inr rs" and
    ds: "ds = d3 @ (if uses_varargs (parameters sg) then [varargs_reason] else [])
             @ (if contains ''input('' src then [input_reason] else []) @ rs"
    using disqualifiers_InrD by blast
  have "d \<in> set d3 \<or> d = varargs_reason \<or> d = input_reason \<or> d \<in> set rs"
    using assms(2) ds by (auto split: if_splits)
  moreover have "d \<in> set d3 \<Longrightarrow> d \<noteq> []"
    using check_parameters_prefix[OF d3, of d] by auto
  moreover have "d \<in> set rs \<Longrightarrow> d \<noteq> []"
    using check_return_cases[OF rs] by (auto simp: return_reason_def)
  ultimately show ?thesis by (auto simp: varargs_reason_def input_reason_def)
qed




lemma rejected_not_in_type_map: "subclass_of_rejected t \<Longrightarrow> map_of type_map t = None"
  by (cases t) (simp_all add: type_map_def)

lemma check_param_rejected:
  "p_annotation p = Ann_type t \<Longrightarrow> subclass_of_rejected t \<Longrightarrow>
   check_param p = Inr [unsupported_reason (p_name p) (Ann_type t)]"
  by (simp add: check_param_def in_type_map_def rejected_not_in_type_map)





lemma function_to_schema_hashable:
  assumes "fn_signature func = Inr sg" and "fn_name func = Inr n"
    and "distinct (map p_name (parameters sg))"
    and "\<forall>p \<in> set (parameters sg). hashable (p_annotation p)"
  shows "function_to_schema func =
           Inr \<lparr>s_type = ''function'',
                s_function =
                  \<lparr>fs_name = n,
                   description = strip (case fn_doc func of None \<Rightarrow> [] | Some d \<Rightarrow> d),
                   fs_parameters =
                     \<lparr>ps_type = ''object'',
                      properties =
                        map (\<lambda>p. (p_name p,
                               [(''type'', case type_map_lookup (p_annotation p) of
                                             Some v \<Rightarrow> v | None \<Rightarrow> ''string'')]))
                          (parameters sg),
                      required = map p_name (filter (\<lambda>p. \<not> p_has_default p) (parameters sg))\<rparr>\<rparr>\<rparr>"
proof -
  have "build_parameters (parameters sg) [] =
          Inr ([] @ map (\<lambda>p. (p_name p,
                 [(''type'', case type_map_lookup (p_annotation p) of
                               Some v \<Rightarrow> v | None \<Rightarrow> ''string'')])) (parameters sg))"
    using assms(3,4) by (intro build_parameters_fresh) simp_all
  then show ?thesis
    using assms(1,2) by (simp add: function_to_schema_def get_signature_def required_names_def)
qed

lemma map_of_named:
  "distinct (map p_name ps) \<Longrightarrow> p \<in> set ps \<Longrightarrow>
   map_of (map (\<lambda>p. (p_name p, f p)) ps) (p_name p) = Some (f p)"
  by (induction ps) (auto simp: image_iff)

lemma checker_rejects:
  assumes "fn_signature func = Inr sg" and "p \<in> set (parameters sg)"
    and "p_annotation p = Ann_type t" and "subclass_of_rejected t"
    and "is_function_schema_compatible func and_parse verbose = Inr r"
  shows "\<not> result_flag r"
proof (cases "is_callable func")
  case False
  then show ?thesis using assms(5)
    by (auto simp: is_function_schema_compatible_def split: if_splits)
next
  case True
  then obtain ds where ds: "disqualifiers func sg = Inr ds"
    and r: "r = finish func ds and_parse verbose"
    using assms(1,5) by (auto simp: is_function_schema_compatible_def split: sum.splits)
  obtain d3 src rs where d3: "check_parameters (parameters sg) [] = Inr d3"
    and e: "ds = d3 @ (if uses_varargs (parameters sg) then [varargs_reason] else [])
             @ (if contains ''input('' src then [input_reason] else []) @ rs"
    using disqualifiers_InrD[OF ds] by blast
  have "set [unsupported_reason (p_name p) (Ann_type t)] \<subseteq> set d3"
    using check_parameters_mem[OF d3 assms(2) check_param_rejected[OF assms(3,4)]] .
  then have "ds \<noteq> []" using e by auto
  then show ?thesis using r by (simp add: finish_def)
qed








section \<open>The store version computes the same result\<close>

lemma list_append_heap:
  "heap st r = Some ds \<Longrightarrow> heap (list_append r x st) r = Some (ds @ [x])"
  by (simp add: list_append_def)

lemma append_all_heap:
  "heap st r = Some ds \<Longrightarrow> heap (append_all r rs st) r = Some (ds @ rs)"
proof (induction rs arbitrary: st ds)
  case Nil
  then show ?case by simp
next
  case (Cons x xs)
  have "heap (list_append r x st) r = Some (ds @ [x])"
    using Cons.prems by (rule list_append_heap)
  then have "heap (append_all r xs (list_append r x st)) r = Some ((ds @ [x]) @ xs)"
    by (rule Cons.IH)
  then show ?case by simp
qed

lemma check_parameters_in_refines:
  "heap st r = Some ds \<Longrightarrow>
   (case check_parameters ps ds of
      Inl e \<Rightarrow> fst (check_parameters_in ps r st) = Some e
    | Inr ds' \<Rightarrow> fst (check_parameters_in ps r st) = None
                  \<and> heap (snd (check_parameters_in ps r st)) r = Some ds')"
proof (induction ps arbitrary: st ds)
  case Nil
  then show ?case by simp
next
  case (Cons p ps)
  show ?case
  proof (cases "check_param p")
    case (Inl e)
    then show ?thesis by simp
  next
    case (Inr rs)
    have "heap (append_all r rs st) r = Some (ds @ rs)"
      using Cons.prems by (rule append_all_heap)
    then show ?thesis using Cons.IH[of "append_all r rs st" "ds @ rs"] Inr
      by (simp split: sum.splits)
  qed
qed

lemma disqualifiers_in_refines:
  assumes "heap st r = Some []"
  shows "case disqualifiers func sg of
           Inl e \<Rightarrow> fst (disqualifiers_in func sg r st) = Some e
         | Inr ds \<Rightarrow> fst (disqualifiers_in func sg r st) = None
                      \<and> list_read r (snd (disqualifiers_in func sg r st)) = ds"
proof (cases "check_parameters (parameters sg) []")
  case (Inl e)
  then have "fst (check_parameters_in (parameters sg) r st) = Some e"
    using check_parameters_in_refines[OF assms, of "parameters sg"] by simp
  then obtain st1 where "check_parameters_in (parameters sg) r st = (Some e, st1)"
    by (cases "check_parameters_in (parameters sg) r st") simp
  then show ?thesis using Inl
    by (simp add: disqualifiers_def disqualifiers_in_def)
next
  case (Inr d3)
  then obtain st1 where c: "check_parameters_in (parameters sg) r st = (None, st1)"
    and h1: "heap st1 r = Some d3"
    using check_parameters_in_refines[OF assms, of "parameters sg"]
    by (cases "check_parameters_in (parameters sg) r st") simp
  let ?d4 = "if uses_varargs (parameters sg) then d3 @ [varargs_reason] else d3"
  let ?st2 = "if uses_varargs (parameters sg) then list_append r varargs_reason st1 else st1"
  have h2: "heap ?st2 r = Some ?d4" using h1 by (simp add: list_append_heap)
  show ?thesis
  proof (cases "fn_source func")
    case (Inl e)
    then show ?thesis using Inr c by (simp add: disqualifiers_def disqualifiers_in_def Let_def)
  next
    case src: (Inr source_code)
    let ?d5 = "if contains ''input('' source_code then ?d4 @ [input_reason] else ?d4"
    let ?st3 = "if contains ''input('' source_code then list_append r input_reason ?st2 else ?st2"
    have h3: "heap ?st3 r = Some ?d5" using h2 by (simp add: list_append_heap)
    show ?thesis
    proof (cases "check_return (return_annotation sg)")
      case (Inl e)
      then show ?thesis using Inr c src
        by (simp add: disqualifiers_def disqualifiers_in_def Let_def)
    next
      case rs: (Inr rs)
      have "heap (append_all r rs ?st3) r = Some (?d5 @ rs)"
        using h3 by (rule append_all_heap)
      then have "list_read r (append_all r rs ?st3) = ?d5 @ rs" by (simp add: list_read_def)
      then show ?thesis using Inr c src rs
        by (simp add: disqualifiers_def disqualifiers_in_def Let_def)
    qed
  qed
qed

lemma call_checker_refines:
  "fst (call_checker func and_parse verbose st) = is_function_schema_compatible func and_parse verbose"
proof -
  let ?st0 = "snd (new_list st)"
  let ?r = "fst (new_list st)"
  have h: "heap ?st0 ?r = Some []" by (simp add: new_list_def)
  show ?thesis
  proof (cases "fn_signature func")
    case (Inl e)
    then show ?thesis
      by (simp add: call_checker_def is_function_schema_compatible_def split: prod.splits)
  next
    case (Inr sg)
    show ?thesis
    proof (cases "disqualifiers func sg")
      case (Inl e)
      then have "fst (disqualifiers_in func sg ?r ?st0) = Some e"
        using disqualifiers_in_refines[OF h, of func sg] by simp
      then show ?thesis using Inl Inr
        by (auto simp: call_checker_def is_function_schema_compatible_def split: prod.splits)
    next
      case ds: (Inr ds)
      then have "fst (disqualifiers_in func sg ?r ?st0) = None"
        and "list_read ?r (snd (disqualifiers_in func sg ?r ?st0)) = ds"
        using disqualifiers_in_refines[OF h, of func sg] by simp_all
      then show ?thesis using ds Inr
        by (auto simp: call_checker_def is_function_schema_compatible_def split: prod.splits)
    qed
  qed
qed

section \<open>The claims\<close>



text \<open>
  C2. With \<^verbatim>\<open>verbose=True\<close> every value the checker returns is a pair. When the second
  component is a reason string, the boolean is True exactly when that string is empty; this
  covers the not-callable return, the no-signature return, the wrapped conversion failure
  and the joined list of disqualifiers. The only other pair is \<^verbatim>\<open>(True, schema)\<close>, which
  carries no reason and is returned with True only. A bare boolean is never returned.
\<close>

theorem verbose_flag_iff_no_reason:
  assumes "is_function_schema_compatible func and_parse True = Inr r"
  shows "case r of
           Flag b \<Rightarrow> False
         | Report b reason \<Rightarrow> (b \<longleftrightarrow> reason = [])
         | Parsed b sc \<Rightarrow> b"
proof (cases "is_callable func")
  case False
  then show ?thesis using assms by (auto simp: is_function_schema_compatible_def)
next
  case True
  show ?thesis
  proof (cases "fn_signature func")
    case (Inl e)
    then show ?thesis using assms True
      by (auto simp: is_function_schema_compatible_def split: if_splits sum.splits)
  next
    case (Inr sg)
    then obtain ds where ds: "disqualifiers func sg = Inr ds"
      and r: "r = finish func ds and_parse True"
      using assms True by (auto simp: is_function_schema_compatible_def split: sum.splits)
    have ne: "\<forall>d \<in> set ds. d \<noteq> []" using disqualifiers_nonempty[OF ds] by blast
    have j: "join ''; '' ds = [] \<longleftrightarrow> ds = []" using join_Nil_iff[OF ne] .
    show ?thesis unfolding r finish_def Let_def
      using j by (auto split: sum.splits)
  qed
qed

theorem verbose_flag_iff_no_reason_witness:
  "is_function_schema_compatible takes_kwargs False True =
     Inr (Report False (join ''; ''
       [missing_annotation_reason ''args'', missing_annotation_reason ''kwargs'',
        varargs_reason, return_reason (Ann_object ''None'')]))
   \<and> join ''; '' [missing_annotation_reason ''args'', missing_annotation_reason ''kwargs'',
        varargs_reason, return_reason (Ann_object ''None'')] \<noteq> []"
proof -
  have e: "is_function_schema_compatible takes_kwargs False True =
     Inr (Report False (join ''; ''
       [missing_annotation_reason ''args'', missing_annotation_reason ''kwargs'',
        varargs_reason, return_reason (Ann_object ''None'')]))"
    by (simp add: is_function_schema_compatible_def takes_kwargs_def disqualifiers_def
        check_param_def in_type_map_def type_map_def uses_varargs_def check_return_def
        finish_def Let_def)
  show ?thesis using verbose_flag_iff_no_reason[OF e] e by simp
qed

text \<open>
  C3. The claim fails on the code: \<^verbatim>\<open>inspect.getsource(func)\<close> on line 117 stands outside
  every \<^verbatim>\<open>try\<close>. For a callable whose signature is introspected but whose source cannot be
  read (a function compiled by \<^verbatim>\<open>exec\<close>, which is what \<^verbatim>\<open>create_tools_from_analysis\<close> passes
  in), the \<^verbatim>\<open>OSError\<close> leaves the checker for every choice of the two flags.
\<close>

theorem getsource_failure_escapes:
  "fn_signature exec_add_numbers = Inr \<lparr>parameters = [number_param ''a'', number_param ''b''],
       return_annotation = Ann_type Py_float\<rparr>
   \<and> is_callable exec_add_numbers
   \<and> is_function_schema_compatible exec_add_numbers and_parse verbose =
       Inl (OSError ''could not get source code'')"
  by (simp add: is_function_schema_compatible_def exec_add_numbers_def add_numbers_def
      disqualifiers_def number_param_def check_param_def in_type_map_def type_map_def Let_def)





text \<open>
  C6. The claim fails on the code: \<^verbatim>\<open>type_map.get(param.annotation, "string")\<close> hashes the
  annotation, and the \<^verbatim>\<open>except KeyError\<close> around it does not catch the \<^verbatim>\<open>TypeError\<close> of an
  unhashable one. The signature of \<^verbatim>\<open>def first(xs: [int])\<close> is introspected without
  trouble, and the conversion still raises.
\<close>

theorem unhashable_annotation_fails:
  "function_to_schema list_annotated = Inl (TypeError (''unhashable type: '' @ quoted ''list''))"
  by (simp add: function_to_schema_def get_signature_def list_annotated_def type_map_get_def)



text \<open>
  C8. When the checks of steps 3 to 6 leave no disqualifier, \<^verbatim>\<open>and_parse\<close> is set and
  \<^verbatim>\<open>function_to_schema\<close> raises \<open>e\<close>, the checker returns: \<^verbatim>\<open>False\<close> alone, or with
  \<^verbatim>\<open>verbose\<close> the pair of \<^verbatim>\<open>False\<close> and the wrapping reason that ends in \<^verbatim>\<open>str(e)\<close>.
\<close>

theorem conversion_failure_wrapped:
  assumes "is_callable func" "fn_signature func = Inr sg" "disqualifiers func sg = Inr []"
    "function_to_schema func = Inl e"
  shows "is_function_schema_compatible func True verbose =
           Inr (if verbose
                then Report False (''Function is structurally valid but failed to convert: '' @ str_exn e)
                else Flag False)"
  using assms by (simp add: is_function_schema_compatible_def finish_def)

theorem conversion_failure_wrapped_witness:
  "is_callable wrapper_object
   \<and> function_to_schema wrapper_object =
       Inl (AttributeError (quoted ''Wrapper'' @ '' object has no attribute '' @ quoted ''__name__''))
   \<and> is_function_schema_compatible wrapper_object True True =
       Inr (Report False (''Function is structurally valid but failed to convert: ''
              @ quoted ''Wrapper'' @ '' object has no attribute '' @ quoted ''__name__''))
   \<and> is_function_schema_compatible wrapper_object True False = Inr (Flag False)"
proof -
  let ?sg = "\<lparr>parameters = [number_param ''a'', number_param ''b''],
              return_annotation = Ann_type Py_float\<rparr>"
  let ?e = "AttributeError (quoted ''Wrapper'' @ '' object has no attribute '' @ quoted ''__name__'')"
  have c: "is_callable wrapper_object"
    by (simp add: wrapper_object_def add_numbers_def)
  have s: "fn_signature wrapper_object = Inr ?sg"
    by (simp add: wrapper_object_def add_numbers_def)
  have d: "disqualifiers wrapper_object ?sg = Inr []"
    by (simp add: wrapper_object_def add_numbers_def disqualifiers_def number_param_def
        check_param_def in_type_map_def type_map_def uses_varargs_def check_return_def Let_def)
  have f: "function_to_schema wrapper_object = Inl ?e"
    by (simp add: function_to_schema_def get_signature_def wrapper_object_def add_numbers_def
        number_param_def type_map_get_def type_map_def)
  show ?thesis
    using c f conversion_failure_wrapped[OF c s d f, of True]
      conversion_failure_wrapped[OF c s d f, of False]
    by simp
qed

text \<open>
  C9. Two successive applications to the same function with the same flags give the same
  outcome, a returned value or a raised exception alike. The second call runs on the store
  the first one left behind, which still holds the first call's list of disqualifiers: the
  call allocates its own list and reads no other, so its outcome is that of the store-free
  function of the arguments alone.
\<close>

theorem successive_calls_agree:
  "fst (call_checker func and_parse verbose (snd (call_checker func and_parse verbose st)))
     = fst (call_checker func and_parse verbose st)
   \<and> fst (call_checker func and_parse verbose st)
     = is_function_schema_compatible func and_parse verbose"
  by (simp add: call_checker_refines)

theorem successive_calls_agree_witness:
  "fst (call_checker add_numbers False True
          (snd (call_checker add_numbers False True \<lparr>heap = Map.empty, next_ref = 0\<rparr>)))
     = Inr (Report True [])
   \<and> fst (call_checker add_numbers False True \<lparr>heap = Map.empty, next_ref = 0\<rparr>)
     = Inr (Report True [])"
proof -
  have e: "is_function_schema_compatible add_numbers False True = Inr (Report True [])"
    by (simp add: is_function_schema_compatible_def add_numbers_def disqualifiers_def
        number_param_def check_param_def in_type_map_def type_map_def uses_varargs_def
        check_return_def finish_def Let_def)
  show ?thesis
    using successive_calls_agree[of add_numbers False True "\<lparr>heap = Map.empty, next_ref = 0\<rparr>"] e
    by simp
qed

text \<open>
  C10. \<^verbatim>\<open>function_to_schema\<close> has no reject-list: a parameter annotated with \<^verbatim>\<open>tuple\<close>,
  \<^verbatim>\<open>set\<close>, \<^verbatim>\<open>complex\<close>, \<^verbatim>\<open>datetime.datetime\<close> or a class derived from one of them does not
  make it fail, the lookup falls back to the default exactly as for any other annotation
  outside \<^verbatim>\<open>type_map\<close>, and the parameter appears in \<^verbatim>\<open>properties\<close> with type \<^verbatim>\<open>string\<close>. The
  checker's step 3 gives the same parameter a disqualifying reason, and whatever
  \<^verbatim>\<open>is_function_schema_compatible\<close> returns for the function is incompatible.
\<close>

theorem rejected_annotation_becomes_string:
  assumes "fn_signature func = Inr sg" and "fn_name func = Inr n"
    and "distinct (map p_name (parameters sg))"
    and "\<forall>q \<in> set (parameters sg). hashable (p_annotation q)"
    and "p \<in> set (parameters sg)" and "p_annotation p = Ann_type t" and "subclass_of_rejected t"
  shows "\<exists>sc. function_to_schema func = Inr sc
           \<and> map_of (properties (fs_parameters (s_function sc))) (p_name p)
               = Some [(''type'', ''string'')]
           \<and> type_map_get (p_annotation p) ''string'' = Inr ''string''
           \<and> type_map_get (p_annotation p) ''string'' = type_map_get (Ann_object other) ''string''
           \<and> check_param p = Inr [unsupported_reason (p_name p) (Ann_type t)]
           \<and> (\<forall>r. is_function_schema_compatible func and_parse verbose = Inr r
                  \<longrightarrow> \<not> result_flag r)"
proof -
  let ?f = "\<lambda>p. [(''type'', case type_map_lookup (p_annotation p) of
                               Some v \<Rightarrow> v | None \<Rightarrow> ''string'')]"
  let ?props = "map (\<lambda>p. (p_name p, ?f p)) (parameters sg)"
  note sc = function_to_schema_hashable[OF assms(1,2,3,4)]
  have "map_of ?props (p_name p) = Some (?f p)"
    using map_of_named[OF assms(3,5)] .
  then have m: "map_of ?props (p_name p) = Some [(''type'', ''string'')]"
    using assms(6) rejected_not_in_type_map[OF assms(7)] by simp
  have g: "type_map_get (p_annotation p) ''string'' = type_map_get (Ann_object other) ''string''"
    using assms(6) rejected_not_in_type_map[OF assms(7)] by (simp add: type_map_get_def)
  have v: "\<not> result_flag r"
    if "is_function_schema_compatible func and_parse verbose = Inr r" for r
    using checker_rejects[OF assms(1,5,6,7) that] .
  have g': "type_map_get (p_annotation p) ''string'' = Inr ''string''"
    using assms(6) rejected_not_in_type_map[OF assms(7)] by (simp add: type_map_get_def)
  show ?thesis using sc m g g' check_param_rejected[OF assms(6,7)] v by simp
qed

theorem rejected_annotation_becomes_string_witness:
  "function_to_schema takes_tuple =
     Inr \<lparr>s_type = ''function'',
          s_function =
            \<lparr>fs_name = ''scale'', description = [],
             fs_parameters =
               \<lparr>ps_type = ''object'',
                properties =
                  [(''point'', [(''type'', ''string'')]), (''factor'', [(''type'', ''integer'')])],
                required = [''point'']\<rparr>\<rparr>\<rparr>
   \<and> is_function_schema_compatible takes_tuple True False = Inr (Flag False)"
proof -
  let ?p = "\<lparr>p_name = ''point'', p_annotation = Ann_type Py_tuple, p_has_default = False,
             p_kind = POSITIONAL_OR_KEYWORD\<rparr>"
  let ?q = "\<lparr>p_name = ''factor'', p_annotation = Ann_type Py_int, p_has_default = True,
             p_kind = POSITIONAL_OR_KEYWORD\<rparr>"
  let ?sg = "\<lparr>parameters = [?p, ?q], return_annotation = Ann_type Py_list\<rparr>"
  have s: "fn_signature takes_tuple = Inr ?sg" by (simp add: takes_tuple_def)
  have n: "fn_name takes_tuple = Inr ''scale''" by (simp add: takes_tuple_def)
  have d: "distinct (map p_name (parameters ?sg))" by simp
  have h: "\<forall>q \<in> set (parameters ?sg). hashable (p_annotation q)" by (simp add: hashable_def)
  have m: "?p \<in> set (parameters ?sg)" by simp
  have a: "p_annotation ?p = Ann_type Py_tuple" by simp
  have e: "function_to_schema takes_tuple =
     Inr \<lparr>s_type = ''function'',
          s_function =
            \<lparr>fs_name = ''scale'', description = [],
             fs_parameters =
               \<lparr>ps_type = ''object'',
                properties =
                  [(''point'', [(''type'', ''string'')]), (''factor'', [(''type'', ''integer'')])],
                required = [''point'']\<rparr>\<rparr>\<rparr>"
    by (simp add: function_to_schema_def get_signature_def takes_tuple_def
        type_map_get_def type_map_def required_names_def strip_def)
  have c: "is_function_schema_compatible takes_tuple True False = Inr (Flag False)"
    by (simp add: is_function_schema_compatible_def takes_tuple_def disqualifiers_def
        check_param_def in_type_map_def type_map_def uses_varargs_def check_return_def
        finish_def Let_def)
  have rj: "subclass_of_rejected Py_tuple" by simp
  from rejected_annotation_becomes_string[OF s n d h m a rj,
      where and_parse = True and verbose = False]
  have "\<not> result_flag (Flag False)" using c by simp
  then show ?thesis using e c by simp
qed

end
